theory Spec2Isabelle
  imports Complex_Main "HOL-Library.Word"
begin

section \<open>Strings and regular expressions of the host language\<close>

text \<open>
  The program is TypeScript. A string is a sequence of UTF-16 code units, and
  \<^verbatim>\<open>length\<close>, \<^verbatim>\<open>slice\<close> and the regular expressions of
  \<^verbatim>\<open>app/lib/validation.ts\<close> (none has the \<^verbatim>\<open>u\<close> flag) all work on
  code units. A string is therefore a list of 16-bit words.
\<close>

type_synonym code_unit = "16 word"
type_synonym jsstring = "code_unit list"

definition js :: "string \<Rightarrow> jsstring" where
  "js s = map of_char s"

text \<open>
  The regular expressions of the file are concatenations of one-character
  matchers: a literal, a literal under the \<^verbatim>\<open>i\<close> flag, or a character class.
  Under the \<^verbatim>\<open>i\<close> flag (without \<^verbatim>\<open>u\<close>) two code units match when their
  canonical forms agree; the canonical form is the upper-case unit, except that a
  unit from 128 upwards is never mapped to one below 128. Every pattern character of
  the file is below 128, so a unit from 128 upwards matches none of them, and below
  128 the canonical form is the ASCII upper-case letter.
\<close>

definition canonicalize :: "code_unit \<Rightarrow> code_unit" where
  "canonicalize c = (if 97 \<le> c \<and> c \<le> 122 then c - 32 else c)"

datatype atom = Lit code_unit | LitCI code_unit | Class "code_unit list"

fun atom_matches :: "atom \<Rightarrow> code_unit \<Rightarrow> bool" where
  "atom_matches (Lit c) d = (d = c)"
| "atom_matches (LitCI c) d = (canonicalize d = canonicalize c)"
| "atom_matches (Class cs) d = (d \<in> set cs)"

type_synonym regex = "atom list"

fun matches_at :: "regex \<Rightarrow> jsstring \<Rightarrow> bool" where
  "matches_at [] s = True"
| "matches_at (a # as) [] = False"
| "matches_at (a # as) (c # cs) = (atom_matches a c \<and> matches_at as cs)"

text \<open>
  \<^verbatim>\<open>s.replace(/re/g, '')\<close>: scan from the left; where the expression matches,
  drop the match and go on behind it; elsewhere keep the unit and move one on.
  (An expression that matches the empty string deletes nothing.)
\<close>

function replace_g :: "regex \<Rightarrow> jsstring \<Rightarrow> jsstring" where
  "replace_g re [] = []"
| "replace_g re (c # cs) =
     (if re \<noteq> [] \<and> matches_at re (c # cs)
      then replace_g re (drop (length re) (c # cs))
      else c # replace_g re cs)"
  by pat_completeness auto
termination
  by (relation "measure (\<lambda>(re, s). length s)") (auto simp: neq_Nil_conv)

text \<open>
  \<^verbatim>\<open>trim()\<close> removes white space and line terminators from both ends: TAB, LF,
  VT, FF, CR, SP, NBSP, U+1680, U+2000 to U+200A, U+2028, U+2029, U+202F, U+205F,
  U+3000 and U+FEFF.
\<close>

definition is_white_space :: "code_unit \<Rightarrow> bool" where
  "is_white_space c \<longleftrightarrow>
     (9 \<le> c \<and> c \<le> 13) \<or> c = 32 \<or> c = 160 \<or> c = 5760 \<or> (8192 \<le> c \<and> c \<le> 8202)
     \<or> c = 8232 \<or> c = 8233 \<or> c = 8239 \<or> c = 8287 \<or> c = 12288 \<or> c = 65279"

definition trim :: "jsstring \<Rightarrow> jsstring" where
  "trim s = rev (dropWhile is_white_space (rev (dropWhile is_white_space s)))"

text \<open>\<^verbatim>\<open>s.slice(0, n)\<close> for \<open>n \<ge> 0\<close>: the first \<open>n\<close> units, or all of \<open>s\<close>.\<close>

definition slice0 :: "nat \<Rightarrow> jsstring \<Rightarrow> jsstring" where
  "slice0 n s = take n s"

section \<open>Sanitization utilities\<close>

text \<open>
  \<^verbatim>\<open>
  export const sanitizeText = (text: string): string => {
    return text
      .replace(/[<>]/g, '')
      .replace(/javascript:/gi, '')
      .trim();
  };
  \<close>
\<close>

definition re_angle :: regex where
  "re_angle = [Class (js ''<>'')]"

definition re_javascript :: regex where
  "re_javascript = map LitCI (js ''javascript:'')"

definition sanitizeText :: "jsstring \<Rightarrow> jsstring" where
  "sanitizeText text = trim (replace_g re_javascript (replace_g re_angle text))"

text \<open>
  \<^verbatim>\<open>
  export const validateSearchQuery = (query: string): string => {
    const sanitized = query
      .replace(/['";\\]/g, '')
      .replace(/--/g, '')
      .replace(/\/\*/g, '')
      .replace(/\*\//g, '')
      .replace(/xp_/gi, '')
      .replace(/sp_/gi, '')
      .slice(0, 100);
    return sanitized.trim();
  };
  \<close>
  The class of the first expression holds four units: the single quote (39), the
  double quote (34), the semicolon (59) and the backslash (92).
\<close>

definition re_quotes :: regex where
  "re_quotes = [Class [39, 34, 59, 92]]"

definition re_dashes :: regex where
  "re_dashes = map Lit (js ''--'')"

definition re_open_comment :: regex where
  "re_open_comment = map Lit (js ''/*'')"

definition re_close_comment :: regex where
  "re_close_comment = map Lit (js ''*/'')"

definition re_xp :: regex where
  "re_xp = map LitCI (js ''xp_'')"

definition re_sp :: regex where
  "re_sp = map LitCI (js ''sp_'')"

definition validateSearchQuery :: "jsstring \<Rightarrow> jsstring" where
  "validateSearchQuery query =
     (let sanitized =
        slice0 100
          (replace_g re_sp
            (replace_g re_xp
              (replace_g re_close_comment
                (replace_g re_open_comment
                  (replace_g re_dashes
                    (replace_g re_quotes query))))))
      in trim sanitized)"

text \<open>
  \<^verbatim>\<open>sanitizeHtml\<close> hands its argument to \<^verbatim>\<open>DOMPurify.sanitize\<close> of the
  package \<^verbatim>\<open>isomorphic-dompurify\<close> with the allow-lists
  \<^verbatim>\<open>ALLOWED_TAGS: ['b', 'i', 'em', 'strong', 'a']\<close>, \<^verbatim>\<open>ALLOWED_ATTR: ['href']\<close>
  and \<^verbatim>\<open>ALLOW_DATA_ATTR: false\<close>. The package is not part of the sources; its
  parser is not modelled here.
\<close>

subsection \<open>The search-term pipeline in the words of the specification\<close>

text \<open>
  The specification describes the search sanitizer as a sequence of removals.
  The functions below follow those words, not the regular expressions: removing
  characters is a filter, removing a two-character sequence and removing a
  three-character prefix in any letter case are written out by pattern matching.
  The first argument of \<open>search_pipeline\<close> is the set of single characters removed
  in the first step.
\<close>

definition remove_chars :: "code_unit list \<Rightarrow> jsstring \<Rightarrow> jsstring" where
  "remove_chars xs s = filter (\<lambda>c. c \<notin> set xs) s"

fun remove_pair :: "code_unit \<Rightarrow> code_unit \<Rightarrow> jsstring \<Rightarrow> jsstring" where
  "remove_pair a b (x # y # zs) =
     (if x = a \<and> y = b then remove_pair a b zs else x # remove_pair a b (y # zs))"
| "remove_pair a b s = s"

fun remove_triple ::
  "code_unit list \<Rightarrow> code_unit list \<Rightarrow> code_unit list \<Rightarrow> jsstring \<Rightarrow> jsstring" where
  "remove_triple A B C (x # y # z # zs) =
     (if x \<in> set A \<and> y \<in> set B \<and> z \<in> set C then remove_triple A B C zs
      else x # remove_triple A B C (y # z # zs))"
| "remove_triple A B C s = s"

definition search_pipeline :: "code_unit list \<Rightarrow> jsstring \<Rightarrow> jsstring" where
  "search_pipeline quote_chars s =
     trim (take 100
       (remove_triple (js ''sS'') (js ''pP'') (js ''_'')
         (remove_triple (js ''xX'') (js ''pP'') (js ''_'')
           (remove_pair 42 47
             (remove_pair 47 42
               (remove_pair 45 45
                 (remove_chars quote_chars s)))))))"

text \<open>
  As the specification words the first step: single quote, double quote and
  backslash.
\<close>

definition sanitizeSearchTerm_spec :: "jsstring \<Rightarrow> jsstring" where
  "sanitizeSearchTerm_spec = search_pipeline [39, 34, 92]"

section \<open>Rate limiting\<close>

text \<open>
  \<^verbatim>\<open>
  export const createRateLimiter = (windowMs: number, maxRequests: number) => {
    const requests = new Map<string, number[]>();
    return (identifier: string): boolean => {
      const now = Date.now();
      const windowStart = now - windowMs;
      const userRequests = requests.get(identifier) || [];
      const recentRequests = userRequests.filter(time => time > windowStart);
      if (recentRequests.length >= maxRequests) {
        return false;
      }
      recentRequests.push(now);
      requests.set(identifier, recentRequests);
      return true;
    };
  };
  \<close>
  The closure owns \<^verbatim>\<open>windowMs\<close>, \<^verbatim>\<open>maxRequests\<close> and the map; the model passes
  them as a record. \<^verbatim>\<open>Date.now()\<close> is an input of each call: a whole number of
  milliseconds. The window is a whole number of milliseconds too, so that the
  subtraction \<^verbatim>\<open>now - windowMs\<close> is exact. \<^verbatim>\<open>filter\<close> returns a fresh array,
  so the array stored before the call is never changed in place.

  \<^verbatim>\<open>maxRequests\<close> is any value of the type \<^verbatim>\<open>number\<close>: a finite number (whole
  or not), \<^verbatim>\<open>NaN\<close> or an infinity. It is only ever compared with a length, in
  \<^verbatim>\<open>recentRequests.length >= maxRequests\<close>; a comparison with \<^verbatim>\<open>NaN\<close> is
  false.
\<close>

datatype jsnumber = Finite real | NaN | PosInfinity | NegInfinity

fun length_ge :: "nat \<Rightarrow> jsnumber \<Rightarrow> bool" where
  "length_ge n (Finite r) = (real n \<ge> r)"
| "length_ge n NaN = False"
| "length_ge n PosInfinity = False"
| "length_ge n NegInfinity = True"

record rate_limiter =
  windowMs :: int
  maxRequests :: jsnumber
  requests :: "jsstring \<rightharpoonup> int list"

definition createRateLimiter :: "int \<Rightarrow> jsnumber \<Rightarrow> rate_limiter" where
  "createRateLimiter w m = \<lparr>windowMs = w, maxRequests = m, requests = Map.empty\<rparr>"

definition recentRequests :: "rate_limiter \<Rightarrow> jsstring \<Rightarrow> int \<Rightarrow> int list" where
  "recentRequests L identifier now =
     (let windowStart = now - windowMs L;
          userRequests = (case requests L identifier of None \<Rightarrow> [] | Some ts \<Rightarrow> ts)
      in filter (\<lambda>time. time > windowStart) userRequests)"

definition limiter_call :: "rate_limiter \<Rightarrow> jsstring \<Rightarrow> int \<Rightarrow> bool \<times> rate_limiter" where
  "limiter_call L identifier now =
     (let recent = recentRequests L identifier now
      in if length_ge (length recent) (maxRequests L) then (False, L)
         else (True, L\<lparr>requests := (requests L)(identifier \<mapsto> recent @ [now])\<rparr>))"

text \<open>A sequence of calls, each with its identifier and the clock reading at the call.\<close>

fun run :: "rate_limiter \<Rightarrow> (jsstring \<times> int) list \<Rightarrow> bool list \<times> rate_limiter" where
  "run L [] = ([], L)"
| "run L ((identifier, now) # calls) =
     (case limiter_call L identifier now of
        (r, L') \<Rightarrow> (case run L' calls of (rs, L'') \<Rightarrow> (r # rs, L'')))"

text \<open>The outcomes of the calls made for one identifier, in order.\<close>

definition outcomes_for :: "jsstring \<Rightarrow> (jsstring \<times> int) list \<Rightarrow> bool list \<Rightarrow> bool list" where
  "outcomes_for b calls rs = map snd (filter (\<lambda>(c, r). fst c = b) (zip calls rs))"

text \<open>Two limiters that look the same from one identifier's side.\<close>

definition agree_at :: "jsstring \<Rightarrow> rate_limiter \<Rightarrow> rate_limiter \<Rightarrow> bool" where
  "agree_at b L M \<longleftrightarrow>
     windowMs L = windowMs M \<and> maxRequests L = maxRequests M \<and> requests L b = requests M b"

section \<open>Schema validation\<close>

datatype jsvalue = VString jsstring | VNumber int | VBool bool | VNull

type_synonym jsobject = "jsstring \<rightharpoonup> jsvalue"

datatype issue = Issue (path: jsstring) (message: jsstring)

text \<open>
  Modelled from the spec: the object parser behind \<^verbatim>\<open>z.object({...})\<close> and
  \<^verbatim>\<open>schema.parse\<close>. It belongs to the package \<^verbatim>\<open>zod\<close>, which is not part of
  the sources; the sources only declare schemas and wrap \<^verbatim>\<open>parse\<close>. The model
  follows section 4.2 of the specification: the fields of the schema are visited in
  their declared order; a field that fails contributes its message; a field that
  passes has its transformed value stored in the output under the same key; keys of
  the input that the schema does not name are never looked at; the result is the
  whole output record or the ordered list of failures.

  A field schema is the check-and-transform of one field: given the value found
  under the key (\<open>None\<close> when the key is absent), it gives the failure message, or
  the value to store (\<open>None\<close> for an optional field that is absent).
\<close>

type_synonym field_schema = "jsvalue option \<Rightarrow> jsstring + jsvalue option"
type_synonym record_schema = "(jsstring \<times> field_schema) list"

fun validate_fields ::
  "record_schema \<Rightarrow> jsobject \<Rightarrow> issue list \<times> jsobject \<Rightarrow> issue list \<times> jsobject" where
  "validate_fields [] input acc = acc"
| "validate_fields ((key, field) # rest) input (errors, out) =
     (case field (input key) of
        Inl msg \<Rightarrow> validate_fields rest input (errors @ [Issue key msg], out)
      | Inr None \<Rightarrow> validate_fields rest input (errors, out)
      | Inr (Some v) \<Rightarrow> validate_fields rest input (errors, out(key \<mapsto> v)))"

definition validate :: "record_schema \<Rightarrow> jsobject \<Rightarrow> issue list + jsobject" where
  "validate schema input =
     (case validate_fields schema input ([], Map.empty) of
        ([], out) \<Rightarrow> Inr out
      | (e # es, out) \<Rightarrow> Inl (e # es))"

text \<open>
  Modelled from the spec: the field kinds of section 3 (string with length bounds
  and a format, enumeration, optional), each with the message the schema declares
  for it, as the schemas of \<^verbatim>\<open>app/lib/validation.ts\<close> do.
\<close>

definition string_field ::
  "nat \<Rightarrow> nat \<Rightarrow> (jsstring \<Rightarrow> bool) \<Rightarrow> jsstring \<Rightarrow> (jsstring \<Rightarrow> jsstring) \<Rightarrow> field_schema" where
  "string_field lo hi format msg transform v =
     (case v of
        Some (VString s) \<Rightarrow>
          if lo \<le> length s \<and> length s \<le> hi \<and> format s
          then Inr (Some (VString (transform s))) else Inl msg
      | _ \<Rightarrow> Inl msg)"

definition enum_field :: "jsstring list \<Rightarrow> jsstring \<Rightarrow> field_schema" where
  "enum_field allowed msg v =
     (case v of
        Some (VString s) \<Rightarrow> if s \<in> set allowed then Inr (Some (VString s)) else Inl msg
      | _ \<Rightarrow> Inl msg)"

text \<open>
  Modelled from the spec: a string field with several constraints, each with its own
  message. The type is checked first, then the constraints in their declared order;
  the field reports one message, that of the first constraint that fails (section 3:
  one message per failing field).
\<close>

fun first_failure :: "((jsstring \<Rightarrow> bool) \<times> jsstring) list \<Rightarrow> jsstring \<Rightarrow> jsstring option" where
  "first_failure [] s = None"
| "first_failure ((check, msg) # rest) s = (if check s then first_failure rest s else Some msg)"

definition checked_string_field ::
  "jsstring \<Rightarrow> ((jsstring \<Rightarrow> bool) \<times> jsstring) list \<Rightarrow> field_schema" where
  "checked_string_field type_msg checks v =
     (case v of
        Some (VString s) \<Rightarrow>
          (case first_failure checks s of None \<Rightarrow> Inr (Some (VString s)) | Some msg \<Rightarrow> Inl msg)
      | _ \<Rightarrow> Inl type_msg)"

definition optional_field :: "field_schema \<Rightarrow> field_schema" where
  "optional_field field v = (case v of None \<Rightarrow> Inr None | Some x \<Rightarrow> field (Some x))"

text \<open>The failures of a call, field by field, without running the loop.\<close>

definition field_failures :: "record_schema \<Rightarrow> jsobject \<Rightarrow> issue list" where
  "field_failures schema input =
     concat (map (\<lambda>(key, field). case field (input key) of
                                   Inl msg \<Rightarrow> [Issue key msg] | Inr _ \<Rightarrow> []) schema)"

subsection \<open>The throwing adapter\<close>

text \<open>
  \<^verbatim>\<open>
  export const validateApiInput = <T>(schema: z.ZodSchema<T>) => {
    return (input: unknown): T => {
      try {
        return schema.parse(input);
      } catch (error) {
        if (error instanceof z.ZodError) {
          throw new Error(`Validation failed: ${error.errors.map(e => e.message).join(', ')}`);
        }
        throw error;
      }
    };
  };
  \<close>
  What is thrown is a value: a \<open>ZodError\<close> with its issues, or a plain \<open>Error\<close> with
  its message. The adapter takes the schema's \<^verbatim>\<open>parse\<close> as its argument, as the
  source takes the schema.
\<close>

datatype thrown = ZodError (errors: "issue list") | Error jsstring

fun join_with :: "jsstring \<Rightarrow> jsstring list \<Rightarrow> jsstring" where
  "join_with sep [] = []"
| "join_with sep [x] = x"
| "join_with sep (x # y # ys) = x @ sep @ join_with sep (y # ys)"

definition validateApiInput :: "('i \<Rightarrow> thrown + 'a) \<Rightarrow> 'i \<Rightarrow> thrown + 'a" where
  "validateApiInput schema_parse input =
     (case schema_parse input of
        Inr v \<Rightarrow> Inr v
      | Inl (ZodError es) \<Rightarrow>
          Inl (Error (js ''Validation failed: '' @ join_with (js '', '') (map message es)))
      | Inl (Error m) \<Rightarrow> Inl (Error m))"

text \<open>
  Modelled from the spec: \<^verbatim>\<open>schema.parse\<close> of the package \<^verbatim>\<open>zod\<close>, the throwing
  form of \<open>validate\<close>: the output record, or one \<open>ZodError\<close> holding every failure.
\<close>

definition parse :: "record_schema \<Rightarrow> jsobject \<Rightarrow> thrown + jsobject" where
  "parse schema input =
     (case validate schema input of Inl es \<Rightarrow> Inl (ZodError es) | Inr out \<Rightarrow> Inr out)"

section \<open>Example schemas\<close>

text \<open>
  Two schemas, each with an input, used as examples: a schema with the fields \<open>name\<close> and
  \<open>email\<close> and an input that carries a third key, and a schema with the fields
  \<open>name\<close> and \<open>role\<close> as \<^verbatim>\<open>userValidationSchema\<close> declares them:
  \<^verbatim>\<open>
  name: z.string()
    .min(1, 'Name is required')
    .max(100, 'Name must be less than 100 characters')
    .regex(/^[a-zA-Z\s'-]+$/, 'Name contains invalid characters'),
  role: z.enum(['admin', 'user', 'manager'], {
    errorMap: () => ({ message: 'Role must be admin, user, or manager' }) }),
  \<close>
  The input of the second example breaks one constraint of each field.
\<close>

definition name_email_schema :: record_schema where
  "name_email_schema =
     [(js ''name'', string_field 1 100 (\<lambda>s. True) (js ''Name is required'') id),
      (js ''email'', string_field 0 100 (\<lambda>s. 64 \<in> set s) (js ''Invalid email format'') id)]"

definition admin_input :: jsobject where
  "admin_input = [js ''name'' \<mapsto> VString (js ''x''), js ''email'' \<mapsto> VString (js ''y@z.com''),
                  js ''admin'' \<mapsto> VBool True]"

definition name_format :: "jsstring \<Rightarrow> bool" where
  "name_format s \<longleftrightarrow>
     s \<noteq> [] \<and>
     list_all (\<lambda>c. (97 \<le> c \<and> c \<le> 122) \<or> (65 \<le> c \<and> c \<le> 90) \<or> is_white_space c
                    \<or> c = 39 \<or> c = 45) s"

definition role_schema :: record_schema where
  "role_schema =
     [(js ''name'', checked_string_field (js ''Required'')
                      [(\<lambda>s. 1 \<le> length s, js ''Name is required''),
                       (\<lambda>s. length s \<le> 100, js ''Name must be less than 100 characters''),
                       (name_format, js ''Name contains invalid characters'')]),
      (js ''role'', enum_field [js ''admin'', js ''user'', js ''manager'']
                      (js ''Role must be admin, user, or manager''))]"

definition superuser_input :: jsobject where
  "superuser_input =
     [js ''name'' \<mapsto> VString (js ''John3''), js ''role'' \<mapsto> VString (js ''superuser'')]"

section \<open>Properties of the string operations\<close>

lemma replace_g_class: "replace_g [Class xs] s = filter (\<lambda>c. c \<notin> set xs) s"
  by (induction s) auto

lemma replace_g_pair: "replace_g [Lit a, Lit b] s = remove_pair a b s"
  by (induction a b s rule: remove_pair.induct) auto

lemma replace_g_triple:
  assumes "\<And>d. atom_matches p d \<longleftrightarrow> d \<in> set A"
      and "\<And>d. atom_matches q d \<longleftrightarrow> d \<in> set B"
      and "\<And>d. atom_matches r d \<longleftrightarrow> d \<in> set C"
  shows "replace_g [p, q, r] s = remove_triple A B C s"
  using assms by (induction A B C s rule: remove_triple.induct) auto

lemma length_trim: "length (trim s) \<le> length s"
proof -
  have "length (dropWhile is_white_space (rev (dropWhile is_white_space s)))
          \<le> length (rev (dropWhile is_white_space s))"
    by (rule length_dropWhile_le)
  then have "length (trim s) \<le> length (dropWhile is_white_space s)"
    unfolding trim_def by simp
  also have "\<dots> \<le> length s" by (rule length_dropWhile_le)
  finally show ?thesis .
qed

lemma ci_x: "atom_matches (LitCI 120) d \<longleftrightarrow> d \<in> set (js ''xX'')"
  by (auto simp: canonicalize_def js_def)
lemma ci_s: "atom_matches (LitCI 115) d \<longleftrightarrow> d \<in> set (js ''sS'')"
  by (auto simp: canonicalize_def js_def)
lemma ci_p: "atom_matches (LitCI 112) d \<longleftrightarrow> d \<in> set (js ''pP'')"
  by (auto simp: canonicalize_def js_def)
lemma ci_underscore: "atom_matches (LitCI 95) d \<longleftrightarrow> d \<in> set (js ''_'')"
  by (auto simp: canonicalize_def js_def)

lemma replace_g_xp: "replace_g re_xp s = remove_triple (js ''xX'') (js ''pP'') (js ''_'') s"
proof -
  have "re_xp = [LitCI 120, LitCI 112, LitCI 95]" by (simp add: re_xp_def js_def)
  then show ?thesis using replace_g_triple [OF ci_x ci_p ci_underscore] by simp
qed

lemma replace_g_sp: "replace_g re_sp s = remove_triple (js ''sS'') (js ''pP'') (js ''_'') s"
proof -
  have "re_sp = [LitCI 115, LitCI 112, LitCI 95]" by (simp add: re_sp_def js_def)
  then show ?thesis using replace_g_triple [OF ci_s ci_p ci_underscore] by simp
qed

lemma replace_g_dashes: "replace_g re_dashes s = remove_pair 45 45 s"
  by (simp add: re_dashes_def js_def replace_g_pair)

lemma replace_g_open: "replace_g re_open_comment s = remove_pair 47 42 s"
  by (simp add: re_open_comment_def js_def replace_g_pair)

lemma replace_g_close: "replace_g re_close_comment s = remove_pair 42 47 s"
  by (simp add: re_close_comment_def js_def replace_g_pair)

lemma replace_g_quotes: "replace_g re_quotes s = remove_chars [39, 34, 59, 92] s"
  by (simp only: re_quotes_def remove_chars_def replace_g_class)

section \<open>The search sanitizer\<close>

text \<open>
  Claim C8. For every string \<open>s\<close>, the result of \<^verbatim>\<open>validateSearchQuery\<close> (the
  specification's \<^verbatim>\<open>sanitizeSearchTerm\<close>) has at most 100 code units.
\<close>

theorem validateSearchQuery_length: "length (validateSearchQuery s) \<le> 100"
proof -
  have "length (validateSearchQuery s) \<le> length (slice0 100
          (replace_g re_sp (replace_g re_xp (replace_g re_close_comment
            (replace_g re_open_comment (replace_g re_dashes (replace_g re_quotes s)))))))"
    unfolding validateSearchQuery_def Let_def by (rule length_trim)
  also have "\<dots> \<le> 100" by (simp add: slice0_def)
  finally show ?thesis .
qed

text \<open>
  Claim C3, as stated: \<^verbatim>\<open>validateSearchQuery\<close> equals the pipeline that first
  removes single quotes, double quotes and backslashes. It does not: the first
  expression of the source also removes the semicolon, so on the one-character
  string \<^verbatim>\<open>;\<close> the source returns the empty string and the pipeline of the
  claim returns \<^verbatim>\<open>;\<close>.
\<close>

theorem validateSearchQuery_spec_counterexample:
  "validateSearchQuery (js '';'') \<noteq> sanitizeSearchTerm_spec (js '';'')"
  by (simp add: validateSearchQuery_def sanitizeSearchTerm_spec_def search_pipeline_def
        re_quotes_def re_dashes_def re_open_comment_def re_close_comment_def re_xp_def
        re_sp_def js_def slice0_def trim_def is_white_space_def remove_chars_def)

text \<open>
  Claim C3, amended. For every string \<open>s\<close>, \<^verbatim>\<open>validateSearchQuery\<close> equals the
  pipeline applied in this order: remove every single quote, double quote, semicolon
  and backslash; remove every \<^verbatim>\<open>--\<close>; remove every \<^verbatim>\<open>/*\<close>, then every
  \<^verbatim>\<open>*/\<close>; remove every \<^verbatim>\<open>xp_\<close>, then every \<^verbatim>\<open>sp_\<close>, in any letter
  case; keep the first 100 code units; trim white space at both ends.
\<close>

theorem validateSearchQuery_pipeline:
  "validateSearchQuery s = search_pipeline [39, 34, 59, 92] s"
  by (simp only: validateSearchQuery_def search_pipeline_def Let_def slice0_def
        replace_g_quotes replace_g_dashes replace_g_open replace_g_close replace_g_xp
        replace_g_sp)

text \<open>
  Claim C1. Each sanitizer should give the same result when applied twice as when
  applied once. The source does not: every \<^verbatim>\<open>replace\<close> is one pass from left to
  right, and removing a match can join its neighbours into a new match, which the
  pass does not see. \<^verbatim>\<open>sanitizeText\<close> turns \<^verbatim>\<open>javajavascript:script:\<close> into
  \<^verbatim>\<open>javascript:\<close>, the very text the source means to remove, and only a second
  application removes it; \<^verbatim>\<open>validateSearchQuery\<close> turns \<^verbatim>\<open>xxp_p_\<close> into
  \<^verbatim>\<open>xp_\<close>, and only a second application removes that.
\<close>

theorem sanitizers_not_idempotent:
  "sanitizeText (js ''javajavascript:script:'') = js ''javascript:''
   \<and> sanitizeText (sanitizeText (js ''javajavascript:script:'')) = []
   \<and> sanitizeText (sanitizeText (js ''javajavascript:script:''))
       \<noteq> sanitizeText (js ''javajavascript:script:'')
   \<and> validateSearchQuery (js ''xxp_p_'') = js ''xp_''
   \<and> validateSearchQuery (validateSearchQuery (js ''xxp_p_'')) = []
   \<and> validateSearchQuery (validateSearchQuery (js ''xxp_p_''))
       \<noteq> validateSearchQuery (js ''xxp_p_'')"
  by code_simp

section \<open>The rate limiter\<close>

lemma run_Cons:
  "run L ((k, t) # calls) =
     (fst (limiter_call L k t) # fst (run (snd (limiter_call L k t)) calls),
      snd (run (snd (limiter_call L k t)) calls))"
  by (simp split: prod.splits)

lemma limiter_call_config:
  "windowMs (snd (limiter_call L i t)) = windowMs L
   \<and> maxRequests (snd (limiter_call L i t)) = maxRequests L"
  by (simp add: limiter_call_def Let_def)

lemma limiter_call_other:
  "a \<noteq> b \<Longrightarrow> requests (snd (limiter_call L a t)) b = requests L b"
  by (simp add: limiter_call_def Let_def)

lemma limiter_call_agree_same:
  assumes "agree_at b L M"
  shows "fst (limiter_call L b t) = fst (limiter_call M b t)
       \<and> agree_at b (snd (limiter_call L b t)) (snd (limiter_call M b t))"
  using assms by (simp add: agree_at_def limiter_call_def recentRequests_def Let_def)

lemma limiter_call_agree_other:
  assumes "agree_at b L M" and "i \<noteq> b"
  shows "agree_at b (snd (limiter_call L i t)) (snd (limiter_call M i t))"
  using assms by (simp add: agree_at_def limiter_call_def Let_def)

lemma run_agree:
  "agree_at b L M \<Longrightarrow>
     outcomes_for b calls (fst (run L calls)) = outcomes_for b calls (fst (run M calls))
     \<and> agree_at b (snd (run L calls)) (snd (run M calls))"
proof (induction calls arbitrary: L M)
  case Nil
  then show ?case by (simp add: outcomes_for_def)
next
  case (Cons c calls)
  obtain i t where c: "c = (i, t)" by (cases c)
  let ?L = "snd (limiter_call L i t)" and ?M = "snd (limiter_call M i t)"
  have step: "agree_at b ?L ?M"
    using Cons.prems limiter_call_agree_same limiter_call_agree_other by (cases "i = b") auto
  have res: "i = b \<Longrightarrow> fst (limiter_call L i t) = fst (limiter_call M i t)"
    using Cons.prems limiter_call_agree_same by auto
  from Cons.IH [OF step] res show ?case
    by (cases "i = b") (simp_all add: c run_Cons outcomes_for_def del: run.simps)
qed

lemma run_maxRequests: "maxRequests (snd (run L calls)) = maxRequests L"
proof (induction calls arbitrary: L)
  case Nil
  then show ?case by simp
next
  case (Cons c calls)
  obtain k t where c: "c = (k, t)" by (cases c)
  from Cons.IH [of "snd (limiter_call L k t)"] limiter_call_config [of L k t]
  show ?case by (simp add: c run_Cons del: run.simps)
qed

text \<open>
  Claim C2. A limiter created with a window of 1000 ms and a ceiling of 3 answers
  four calls for one identifier that all fall within 1000 ms (the fourth less than
  1000 ms after the first) with true, true, true, false, and a fifth call made more
  than 1000 ms after the first with true.
\<close>

theorem limiter_exactness:
  assumes "t1 \<le> t2" "t2 \<le> t3" "t3 \<le> t4" "t4 < t1 + 1000" "t1 + 1000 < t5"
  shows "fst (run (createRateLimiter 1000 (Finite 3))
              [(i, t1), (i, t2), (i, t3), (i, t4), (i, t5)])
         = [True, True, True, False, True]"
  using assms
  by (simp add: createRateLimiter_def limiter_call_def recentRequests_def Let_def)

theorem limiter_exactness_witness:
  "(0::int) \<le> 100 \<and> (100::int) \<le> 200 \<and> (200::int) \<le> 300 \<and> (300::int) < 0 + 1000
   \<and> (0::int) + 1000 < 1001
   \<and> fst (run (createRateLimiter 1000 (Finite 3))
            [(js ''a'', 0), (js ''a'', 100), (js ''a'', 200), (js ''a'', 300), (js ''a'', 1001)])
      = [True, True, True, False, True]"
  using limiter_exactness [of 0 100 200 300 1001 "js ''a''"] by simp

text \<open>
  Claim C4. Whatever the state of the limiter, the identifier and the clock: when
  the pruned list of recent timestamps has at least \<^verbatim>\<open>maxRequests\<close> entries, the
  call returns false and leaves the limiter as it was, for every identifier; so
  every later sequence of calls runs exactly as if the rejected call had not been
  made.
\<close>

theorem rejected_call_leaves_state:
  assumes "length_ge (length (recentRequests L identifier now)) (maxRequests L)"
  shows "limiter_call L identifier now = (False, L)
       \<and> (\<forall>calls. run (snd (limiter_call L identifier now)) calls = run L calls)"
  using assms by (simp add: limiter_call_def Let_def)

theorem rejected_call_leaves_state_witness:
  "length_ge (length (recentRequests
       \<lparr>windowMs = 1000, maxRequests = Finite 1, requests = [js ''a'' \<mapsto> [500]]\<rparr> (js ''a'') 600))
     (maxRequests \<lparr>windowMs = 1000, maxRequests = Finite 1, requests = [js ''a'' \<mapsto> [500]]\<rparr>)
   \<and> limiter_call \<lparr>windowMs = 1000, maxRequests = Finite 1, requests = [js ''a'' \<mapsto> [500]]\<rparr>
        (js ''a'') 600
      = (False, \<lparr>windowMs = 1000, maxRequests = Finite 1, requests = [js ''a'' \<mapsto> [500]]\<rparr>)"
proof -
  let ?L = "\<lparr>windowMs = 1000, maxRequests = Finite 1, requests = [js ''a'' \<mapsto> [500]]\<rparr>"
  have h: "length_ge (length (recentRequests ?L (js ''a'') 600)) (maxRequests ?L)"
    by (simp add: recentRequests_def)
  from rejected_call_leaves_state [OF h] h show ?thesis by blast
qed

text \<open>
  Claim C7. For two different identifiers \<open>a\<close> and \<open>b\<close>, in any state of the
  limiter: a call for \<open>a\<close> leaves the timestamps stored for \<open>b\<close> as they were, and
  in every sequence of calls that follows, the calls for \<open>b\<close> are answered, and the
  timestamps of \<open>b\<close> end up, exactly as they would without the call for \<open>a\<close>.
\<close>

theorem limiter_isolation:
  assumes "a \<noteq> b"
  shows "requests (snd (limiter_call L a t)) b = requests L b
       \<and> outcomes_for b calls (fst (run (snd (limiter_call L a t)) calls))
           = outcomes_for b calls (fst (run L calls))
       \<and> requests (snd (run (snd (limiter_call L a t)) calls)) b
           = requests (snd (run L calls)) b"
proof -
  have ag: "agree_at b (snd (limiter_call L a t)) L"
    using assms by (simp add: agree_at_def limiter_call_def Let_def)
  from run_agree [OF ag, of calls] limiter_call_other [OF assms] show ?thesis
    by (simp add: agree_at_def)
qed

theorem limiter_isolation_witness:
  "js ''a'' \<noteq> js ''b''
   \<and> requests (snd (limiter_call (createRateLimiter 1000 (Finite 1)) (js ''a'') 5)) (js ''b'')
       = requests (createRateLimiter 1000 (Finite 1)) (js ''b'')
   \<and> outcomes_for (js ''b'') [(js ''b'', 7), (js ''a'', 8), (js ''b'', 9)]
       (fst (run (snd (limiter_call (createRateLimiter 1000 (Finite 1)) (js ''a'') 5))
               [(js ''b'', 7), (js ''a'', 8), (js ''b'', 9)]))
       = [True, False]"
proof -
  have h: "js ''a'' \<noteq> js ''b''" by (simp add: js_def)
  have "outcomes_for (js ''b'') [(js ''b'', 7), (js ''a'', 8), (js ''b'', 9)]
          (fst (run (createRateLimiter 1000 (Finite 1)) [(js ''b'', 7), (js ''a'', 8), (js ''b'', 9)]))
        = [True, False]"
    by (simp add: outcomes_for_def createRateLimiter_def limiter_call_def recentRequests_def
                  js_def)
  with limiter_isolation [OF h, of "createRateLimiter 1000 (Finite 1)" 5
         "[(js ''b'', 7), (js ''a'', 8), (js ''b'', 9)]"] h
  show ?thesis by simp
qed

lemma whole_le_length: "real_of_int k \<le> real n \<longleftrightarrow> k \<le> int n"
  by linarith

lemma limiter_call_ceiling:
  assumes "maxRequests L = Finite (of_int k)"
      and "\<forall>i ts. requests L i = Some ts \<longrightarrow> int (length ts) \<le> k"
  shows "\<forall>i ts. requests (snd (limiter_call L j t)) i = Some ts \<longrightarrow> int (length ts) \<le> k"
  using assms by (auto simp: limiter_call_def Let_def whole_le_length)

lemma run_ceiling:
  "maxRequests L = Finite (of_int k) \<Longrightarrow>
   \<forall>i ts. requests L i = Some ts \<longrightarrow> int (length ts) \<le> k \<Longrightarrow>
   \<forall>i ts. requests (snd (run L calls)) i = Some ts \<longrightarrow> int (length ts) \<le> k"
proof (induction calls arbitrary: L)
  case Nil
  then show ?case by simp
next
  case (Cons c calls)
  obtain j t where c: "c = (j, t)" by (cases c)
  have m: "maxRequests (snd (limiter_call L j t)) = Finite (of_int k)"
    using Cons.prems(1) by (simp add: limiter_call_config)
  from Cons.IH [OF m limiter_call_ceiling [OF Cons.prems, of j t]]
  show ?case by (simp add: c run_Cons del: run.simps)
qed

text \<open>
  Claim C10, as stated: after any sequence of calls on a limiter created by
  \<^verbatim>\<open>createRateLimiter(windowMs, maxRequests)\<close>, every stored list of timestamps
  has at most \<^verbatim>\<open>maxRequests\<close> entries. This fails when \<^verbatim>\<open>maxRequests\<close> is not
  a whole number: with a ceiling of 2.5, a pruned list of 2 entries is below the
  ceiling, the third call is admitted, and the stored list has 3 entries.
\<close>

theorem stored_list_exceeds_fractional_ceiling:
  "requests (snd (run (createRateLimiter 1000 (Finite (5 / 2)))
                    [(js ''a'', 0), (js ''a'', 1), (js ''a'', 2)])) (js ''a'') = Some [0, 1, 2]
   \<and> \<not> real (length [0 :: int, 1, 2]) \<le> 5 / 2"
  by (simp add: createRateLimiter_def limiter_call_def recentRequests_def)

text \<open>
  Claim C10, amended. When \<^verbatim>\<open>maxRequests\<close> is a whole number, then after any
  sequence of calls on a limiter created by
  \<^verbatim>\<open>createRateLimiter(windowMs, maxRequests)\<close> every stored list of timestamps has
  at most \<^verbatim>\<open>maxRequests\<close> entries. And for any ceiling, a call either rejects and
  leaves the limiter as it was, or it admits: then the pruned list is below the
  ceiling, and the only write is that list plus the one new timestamp, stored under
  the identifier of the call.
\<close>

theorem stored_list_within_whole_ceiling:
  "(requests (snd (run (createRateLimiter w (Finite (of_int k))) calls)) i = Some ts
      \<longrightarrow> int (length ts) \<le> k)
   \<and> (limiter_call L j t = (False, L)
      \<or> (\<not> length_ge (length (recentRequests L j t)) (maxRequests L)
         \<and> limiter_call L j t
             = (True, L\<lparr>requests := (requests L)(j \<mapsto> recentRequests L j t @ [t])\<rparr>)))"
proof
  let ?L = "createRateLimiter w (Finite (of_int k))"
  have m: "maxRequests ?L = Finite (of_int k)" by (simp add: createRateLimiter_def)
  have e: "\<forall>i ts. requests ?L i = Some ts \<longrightarrow> int (length ts) \<le> k"
    by (simp add: createRateLimiter_def)
  from run_ceiling [OF m e, of calls]
  show "requests (snd (run ?L calls)) i = Some ts \<longrightarrow> int (length ts) \<le> k" by blast
next
  show "limiter_call L j t = (False, L)
      \<or> (\<not> length_ge (length (recentRequests L j t)) (maxRequests L)
         \<and> limiter_call L j t
             = (True, L\<lparr>requests := (requests L)(j \<mapsto> recentRequests L j t @ [t])\<rparr>))"
    by (simp add: limiter_call_def Let_def)
qed

theorem stored_list_within_whole_ceiling_witness:
  "requests (snd (run (createRateLimiter 1000 (Finite (of_int 2)))
                    [(js ''a'', 0), (js ''a'', 1), (js ''a'', 2)])) (js ''a'') = Some [0, 1]
   \<and> int (length [0::int, 1]) \<le> 2
   \<and> \<not> length_ge (length (recentRequests (createRateLimiter 1000 (Finite 2)) (js ''a'') 0))
          (maxRequests (createRateLimiter 1000 (Finite 2)))
   \<and> limiter_call (createRateLimiter 1000 (Finite 2)) (js ''a'') 0
       = (True, (createRateLimiter 1000 (Finite 2))
                  \<lparr>requests := (requests (createRateLimiter 1000 (Finite 2)))
                     (js ''a'' \<mapsto> recentRequests (createRateLimiter 1000 (Finite 2)) (js ''a'') 0 @ [0])\<rparr>)"
proof -
  have h: "requests (snd (run (createRateLimiter 1000 (Finite (of_int 2)))
                    [(js ''a'', 0), (js ''a'', 1), (js ''a'', 2)])) (js ''a'') = Some [0, 1]"
    by (simp add: createRateLimiter_def limiter_call_def recentRequests_def)
  have n: "limiter_call (createRateLimiter 1000 (Finite 2)) (js ''a'') 0
             \<noteq> (False, createRateLimiter 1000 (Finite 2))"
    by (simp add: createRateLimiter_def limiter_call_def recentRequests_def)
  from stored_list_within_whole_ceiling
         [of 1000 2 "[(js ''a'', 0), (js ''a'', 1), (js ''a'', 2)]" "js ''a''" "[0, 1]"
             "createRateLimiter 1000 (Finite 2)" "js ''a''" 0] h n
  show ?thesis by blast
qed

section \<open>Schema validation and the throwing adapter\<close>

lemma field_failures_Cons:
  "field_failures ((key, field) # schema) input =
     (case field (input key) of Inl msg \<Rightarrow> [Issue key msg] | Inr v \<Rightarrow> [])
     @ field_failures schema input"
  by (simp add: field_failures_def)

lemma validate_fields_errors:
  "fst (validate_fields schema input (es, out)) = es @ field_failures schema input"
proof (induction schema arbitrary: es out)
  case Nil
  show ?case by (simp add: field_failures_def)
next
  case (Cons kf schema)
  obtain key field where kf: "kf = (key, field)" by (cases kf)
  show ?case
    unfolding kf field_failures_Cons
    by (simp add: Cons.IH split: sum.split option.split)
qed

lemma validate_fields_dom:
  "dom (snd (validate_fields schema input (es, out))) \<subseteq> dom out \<union> fst ` set schema"
proof (induction schema arbitrary: es out)
  case Nil
  show ?case by simp
next
  case (Cons kf schema)
  obtain key field where kf: "kf = (key, field)" by (cases kf)
  have keys: "fst ` set (kf # schema) = insert key (fst ` set schema)" by (simp add: kf)
  show ?case
  proof (cases "field (input key)")
    case (Inl msg)
    have "validate_fields (kf # schema) input (es, out)
            = validate_fields schema input (es @ [Issue key msg], out)"
      by (simp add: kf Inl)
    moreover have "dom (snd (validate_fields schema input (es @ [Issue key msg], out)))
                     \<subseteq> dom out \<union> fst ` set schema"
      by (rule Cons.IH)
    ultimately show ?thesis unfolding keys by (simp only:) blast
  next
    case (Inr v)
    show ?thesis
    proof (cases v)
      case None
      have "validate_fields (kf # schema) input (es, out)
              = validate_fields schema input (es, out)"
        by (simp add: kf Inr None)
      moreover have "dom (snd (validate_fields schema input (es, out)))
                       \<subseteq> dom out \<union> fst ` set schema"
        by (rule Cons.IH)
      ultimately show ?thesis unfolding keys by (simp only:) blast
    next
      case (Some x)
      have "validate_fields (kf # schema) input (es, out)
              = validate_fields schema input (es, out(key \<mapsto> x))"
        by (simp add: kf Inr Some)
      moreover have "dom (snd (validate_fields schema input (es, out(key \<mapsto> x))))
                       \<subseteq> dom (out(key \<mapsto> x)) \<union> fst ` set schema"
        by (rule Cons.IH)
      moreover have "dom (out(key \<mapsto> x)) = insert key (dom out)" by simp
      ultimately show ?thesis unfolding keys by (simp only:) blast
    qed
  qed
qed

lemma validate_Inl:
  assumes "validate schema input = Inl es"
  shows "es = field_failures schema input \<and> es \<noteq> []"
proof -
  obtain errs out where r: "validate_fields schema input ([], Map.empty) = (errs, out)"
    by (cases "validate_fields schema input ([], Map.empty)")
  have v: "validate schema input = (case errs of [] \<Rightarrow> Inr out | e # es \<Rightarrow> Inl (e # es))"
    by (simp add: validate_def r split: list.split)
  have "es = errs \<and> errs \<noteq> []"
    using assms unfolding v by (auto split: list.splits)
  moreover have "errs = fst (validate_fields schema input ([], Map.empty))" by (simp add: r)
  then have "errs = field_failures schema input"
    by (simp only: validate_fields_errors append_Nil)
  ultimately show ?thesis by simp
qed

lemma join_with_unfold:
  "ms \<noteq> [] \<Longrightarrow> join_with sep ms = concat (map (\<lambda>m. m @ sep) (butlast ms)) @ last ms"
  by (induction sep ms rule: join_with.induct) auto

lemma validateApiInput_ZodError:
  assumes "schema_parse input = Inl (ZodError es)" and "es \<noteq> []"
  shows "validateApiInput schema_parse input
     = Inl (Error (js ''Validation failed: ''
                   @ concat (map (\<lambda>e. message e @ js '', '') (butlast es)) @ message (last es)))"
proof -
  have "join_with (js '', '') (map message es)
          = concat (map (\<lambda>m. m @ js '', '') (butlast (map message es))) @ last (map message es)"
    using assms(2) by (simp add: join_with_unfold)
  also have "\<dots> = concat (map (\<lambda>e. message e @ js '', '') (butlast es)) @ message (last es)"
    using assms(2) by (simp add: map_butlast [symmetric] last_map comp_def)
  finally show ?thesis using assms(1) by (simp add: validateApiInput_def)
qed

lemma field_failures_member:
  "(key, field) \<in> set schema \<Longrightarrow> field (input key) = Inl msg
     \<Longrightarrow> Issue key msg \<in> set (field_failures schema input)"
  by (induction schema) (auto simp: field_failures_def)

text \<open>
  Claim C5. For every schema and every input on which validation fails: the
  failures reported are those of all failing fields of the call, one for each, in
  the order of the schema (not only the first one); \<^verbatim>\<open>validateApiInput\<close> throws
  one error, whose message is \<^verbatim>\<open>Validation failed: \<close> followed by the messages of
  all failures, each but the last followed by a comma and a space; and no output
  record is returned. The last conjunct is the adapter of the source alone, for any
  \<^verbatim>\<open>parse\<close> that throws a \<open>ZodError\<close> with at least one issue.
\<close>

theorem validation_failures_batched:
  assumes "validate schema input = Inl es"
  shows "es \<noteq> []
       \<and> es = concat (map (\<lambda>(key, field). case field (input key) of
                                             Inl msg \<Rightarrow> [Issue key msg] | Inr v \<Rightarrow> []) schema)
       \<and> (\<forall>(key, field) \<in> set schema. \<forall>msg.
             field (input key) = Inl msg \<longrightarrow> Issue key msg \<in> set es)
       \<and> validateApiInput (parse schema) input
           = Inl (Error (js ''Validation failed: ''
                         @ concat (map (\<lambda>e. message e @ js '', '') (butlast es))
                         @ message (last es)))
       \<and> (\<forall>out. validateApiInput (parse schema) input \<noteq> Inr out)
       \<and> (schema_parse raw = Inl (ZodError es') \<and> es' \<noteq> [] \<longrightarrow>
            validateApiInput schema_parse raw
              = Inl (Error (js ''Validation failed: ''
                            @ concat (map (\<lambda>e. message e @ js '', '') (butlast es'))
                            @ message (last es'))))"
proof -
  have es: "es = field_failures schema input" using validate_Inl [OF assms] by (rule conjunct1)
  have ne: "es \<noteq> []" using validate_Inl [OF assms] by (rule conjunct2)
  have p: "parse schema input = Inl (ZodError es)" using assms by (simp add: parse_def)
  have thrown: "validateApiInput (parse schema) input
           = Inl (Error (js ''Validation failed: ''
                         @ concat (map (\<lambda>e. message e @ js '', '') (butlast es))
                         @ message (last es)))"
    by (rule validateApiInput_ZodError [of "parse schema" input es, OF p ne])
  have all: "\<forall>(key, field) \<in> set schema. \<forall>msg.
             field (input key) = Inl msg \<longrightarrow> Issue key msg \<in> set es"
  proof (intro ballI allI impI, clarify)
    fix key field msg
    assume "(key, field) \<in> set schema" and "field (input key) = Inl msg"
    then show "Issue key msg \<in> set es" unfolding es by (rule field_failures_member)
  qed
  have listed: "es = concat (map (\<lambda>(key, field). case field (input key) of
                                             Inl msg \<Rightarrow> [Issue key msg] | Inr v \<Rightarrow> []) schema)"
    unfolding es field_failures_def ..
  have none: "\<forall>out. validateApiInput (parse schema) input \<noteq> Inr out"
    unfolding thrown by simp
  have adapter: "schema_parse raw = Inl (ZodError es') \<and> es' \<noteq> [] \<longrightarrow>
            validateApiInput schema_parse raw
              = Inl (Error (js ''Validation failed: ''
                            @ concat (map (\<lambda>e. message e @ js '', '') (butlast es'))
                            @ message (last es')))"
  proof (intro impI)
    assume a: "schema_parse raw = Inl (ZodError es') \<and> es' \<noteq> []"
    show "validateApiInput schema_parse raw
              = Inl (Error (js ''Validation failed: ''
                            @ concat (map (\<lambda>e. message e @ js '', '') (butlast es'))
                            @ message (last es')))"
      by (rule validateApiInput_ZodError [of schema_parse raw es', OF conjunct1 [OF a] conjunct2 [OF a]])
  qed
  show ?thesis
    by (intro conjI) (rule ne, rule listed, rule all, rule thrown, rule none, rule adapter)
qed

theorem validation_failures_batched_witness:
  "validate role_schema superuser_input
     = Inl [Issue (js ''name'') (js ''Name contains invalid characters''),
            Issue (js ''role'') (js ''Role must be admin, user, or manager'')]
   \<and> validateApiInput (parse role_schema) superuser_input
     = Inl (Error (js ''Validation failed: Name contains invalid characters, Role must be admin, user, or manager''))"
proof -
  have h: "validate role_schema superuser_input
     = Inl [Issue (js ''name'') (js ''Name contains invalid characters''),
            Issue (js ''role'') (js ''Role must be admin, user, or manager'')]"
    by (simp add: validate_def role_schema_def superuser_input_def checked_string_field_def
          name_format_def is_white_space_def enum_field_def js_def)
  have "validateApiInput (parse role_schema) superuser_input
          = Inl (Error (js ''Validation failed: ''
               @ concat (map (\<lambda>e. message e @ js '', '')
                   (butlast [Issue (js ''name'') (js ''Name contains invalid characters''),
                             Issue (js ''role'') (js ''Role must be admin, user, or manager'')]))
               @ message (last [Issue (js ''name'') (js ''Name contains invalid characters''),
                                Issue (js ''role'') (js ''Role must be admin, user, or manager'')])))"
    by (rule validation_failures_batched
          [OF h, THEN conjunct2, THEN conjunct2, THEN conjunct2, THEN conjunct1])
  then have "validateApiInput (parse role_schema) superuser_input
     = Inl (Error (js ''Validation failed: Name contains invalid characters, Role must be admin, user, or manager''))"
    by (simp add: js_def)
  with h show ?thesis by (rule conjI)
qed

text \<open>
  Claim C6. Whenever validation succeeds, every key of the output record is a field
  of the schema: a key of the input that the schema does not name is never copied.
  In particular, for any schema with exactly the fields \<open>name\<close> and \<open>email\<close> and the
  input \<^verbatim>\<open>{name: "x", email: "y@z.com", admin: true}\<close>, the output holds no
  key besides \<open>name\<close> and \<open>email\<close>, and no \<open>admin\<close>.
\<close>

theorem unknown_keys_dropped:
  "(validate schema input = Inr out \<longrightarrow> dom out \<subseteq> fst ` set schema)
   \<and> (validate [(js ''name'', f1), (js ''email'', f2)] admin_input = Inr out2
        \<longrightarrow> dom out2 \<subseteq> {js ''name'', js ''email''} \<and> out2 (js ''admin'') = None)"
proof -
  have general: "dom out \<subseteq> fst ` set schema" if ok: "validate schema input = Inr out"
    for schema input out
  proof -
    obtain errs out' where r: "validate_fields schema input ([], Map.empty) = (errs, out')"
      by (cases "validate_fields schema input ([], Map.empty)")
    have "validate schema input = (case errs of [] \<Rightarrow> Inr out' | e # es \<Rightarrow> Inl (e # es))"
      by (simp add: validate_def r split: list.split)
    with ok have "out = out'" by (auto split: list.splits)
    moreover have "dom (snd (validate_fields schema input ([], Map.empty)))
                     \<subseteq> dom (Map.empty :: jsobject) \<union> fst ` set schema"
      by (rule validate_fields_dom)
    then have "dom out' \<subseteq> fst ` set schema" by (simp add: r)
    ultimately show ?thesis by simp
  qed
  have admin: "js ''admin'' \<notin> {js ''name'', js ''email''}" by (simp add: js_def)
  have "dom out2 \<subseteq> {js ''name'', js ''email''} \<and> out2 (js ''admin'') = None"
    if "validate [(js ''name'', f1), (js ''email'', f2)] admin_input = Inr out2"
  proof -
    from general [OF that] have d: "dom out2 \<subseteq> {js ''name'', js ''email''}" by simp
    with admin have "js ''admin'' \<notin> dom out2" by blast
    with d show ?thesis by blast
  qed
  with general show ?thesis by blast
qed

theorem unknown_keys_dropped_witness:
  "validate name_email_schema admin_input
     = Inr [js ''name'' \<mapsto> VString (js ''x''), js ''email'' \<mapsto> VString (js ''y@z.com'')]
   \<and> dom [js ''name'' \<mapsto> VString (js ''x''), js ''email'' \<mapsto> VString (js ''y@z.com'')]
       \<subseteq> fst ` set name_email_schema
   \<and> admin_input (js ''admin'') = Some (VBool True)
   \<and> [js ''name'' \<mapsto> VString (js ''x''), js ''email'' \<mapsto> VString (js ''y@z.com'')]
        (js ''admin'') = None"
proof -
  let ?out = "[js ''name'' \<mapsto> VString (js ''x''), js ''email'' \<mapsto> VString (js ''y@z.com'')]"
  have h: "validate name_email_schema admin_input = Inr ?out"
    by (simp add: validate_def name_email_schema_def admin_input_def string_field_def js_def)
  have h2: "validate [(js ''name'', string_field 1 100 (\<lambda>s. True) (js ''Name is required'') id),
                      (js ''email'', string_field 0 100 (\<lambda>s. 64 \<in> set s)
                                       (js ''Invalid email format'') id)] admin_input = Inr ?out"
    using h by (simp only: name_email_schema_def)
  have i: "admin_input (js ''admin'') = Some (VBool True)"
    by (simp add: admin_input_def js_def)
  from unknown_keys_dropped [of name_email_schema admin_input ?out
         "string_field 1 100 (\<lambda>s. True) (js ''Name is required'') id"
         "string_field 0 100 (\<lambda>s. 64 \<in> set s) (js ''Invalid email format'') id" ?out]
       h h2 i
  show ?thesis by blast
qed

end
